theory Spec2Isabelle
  imports Main
begin

section \<open>Data model (server/models/Room.js)\<close>

text \<open>
  Mongo object ids are compared through \<open>toString()\<close>; they are modelled as natural
  numbers. A \<open>Date\<close> is its millisecond timestamp. The clock (\<open>new Date()\<close>) is an
  explicit argument \<open>now\<close> of every operation that reads it.
\<close>

type_synonym user_id = nat
type_synonym time = nat

text \<open>
  A JavaScript string that a client supplies is the list of its UTF-16 code units (as
  integers), so that \<open>length\<close> is \<open>String.prototype.length\<close>. The strings that the program itself
  writes (room codes, field names, enumerations, error paths) stay lists of characters.
\<close>

type_synonym jstring = "int list"

definition str :: "string \<Rightarrow> jstring" where
  "str s = map of_char s"

datatype role = Owner | Admin | Moderator | Participant

datatype room_type = Public | Private | PasswordProtected

record permissions =
  canMute :: bool
  canUnmute :: bool
  canShareScreen :: bool
  canChat :: bool
  canRecord :: bool
  canKick :: bool

record participant_stats =
  totalTime :: nat
  lastSeen :: time

record participant =
  user :: user_id
  role :: role
  joinedAt :: time
  leftAt :: "time option"
  isActive :: bool
  permissions :: permissions
  stats :: participant_stats

text \<open>
  The settings sub-document: the five flags the create handler computes. The remaining
  seven settings keep their schema defaults and are read by no operation modelled here.
\<close>

record settings =
  videoEnabled :: bool
  audioEnabled :: bool
  screenSharingEnabled :: bool
  chatEnabled :: bool
  recordingEnabled :: bool

text \<open>A room document. An empty \<open>roomId\<close> is a document without a room code.\<close>

record room =
  name :: jstring
  description :: "jstring option"
  roomId :: string
  owner :: user_id
  rtype :: room_type
  password :: "jstring option"
  maxParticipants :: int
  room_isActive :: bool
  room_settings :: settings
  participants :: "participant list"
  lastActivity :: time
  tags :: "jstring list"
  category :: string

text \<open>
  The answers other than success, by their \<open>code\<close>. \<open>VALIDATION_ERROR\<close> carries the
  paths that failed; it is the code of a failed validation chain and of a document that
  \<open>save()\<close> refuses. \<open>INTERNAL_SERVER_ERROR\<close> is the answer of the error handler to an
  exception without a code of its own; \<open>SERVER_ERROR\<close> is the status 500 that the
  middleware of server/middleware/auth.js sends from its \<open>catch\<close> blocks.
\<close>

datatype error =
    NOT_FOUND
  | VALIDATION_ERROR "string list"
  | INVALID_ROOM_NAME
  | ROOM_NAME_EXISTS
  | DUPLICATE_FIELD
  | ROOM_INACTIVE
  | ROOM_FULL
  | PASSWORD_REQUIRED
  | INVALID_PASSWORD
  | INSUFFICIENT_PERMISSIONS
  | INTERNAL_SERVER_ERROR
  | SERVER_ERROR

section \<open>Room methods (server/models/Room.js)\<close>

text \<open>\<open>Array.prototype.find\<close> is \<^const>\<open>List.find\<close>: the first element satisfying the test.\<close>

text \<open>
  JavaScript mutates the object that \<open>find\<close> returned, in place: the first element
  satisfying the test is replaced, all others stay.
\<close>

fun update_first :: "('a \<Rightarrow> bool) \<Rightarrow> ('a \<Rightarrow> 'a) \<Rightarrow> 'a list \<Rightarrow> 'a list" where
  "update_first P f [] = []"
| "update_first P f (x # xs) = (if P x then f x # xs else x # update_first P f xs)"

definition currentParticipantsCount :: "room \<Rightarrow> nat" where
  "currentParticipantsCount r = length (filter isActive (participants r))"

definition status :: "room \<Rightarrow> string" where
  "status r =
     (if \<not> room_isActive r then ''inactive''
      else if currentParticipantsCount r > 0 then ''active''
      else ''empty'')"

definition chars :: string where
  "chars = ''ABCDEFGHIJKLMNOPQRSTUVWXYZ0123456789''"

text \<open>\<open>String.prototype.charAt\<close>: the empty string when the index is out of range.\<close>

definition charAt :: "string \<Rightarrow> nat \<Rightarrow> string" where
  "charAt s k = (if k < length s then [s ! k] else [])"

text \<open>
  \<open>generateRoomId\<close>: the loop \<open>for (i = 0; i < 8; i++)\<close> appends one character per
  round. The \<open>i\<close>-th value of \<open>Math.floor(Math.random() * chars.length)\<close> is \<open>draw i\<close>;
  since \<open>Math.random()\<close> lies in \<open>[0, 1)\<close>, every draw is below \<open>length chars\<close>.
\<close>

fun generateRoomId_loop :: "(nat \<Rightarrow> nat) \<Rightarrow> nat \<Rightarrow> nat \<Rightarrow> string \<Rightarrow> string" where
  "generateRoomId_loop draw i 0 result = result"
| "generateRoomId_loop draw i (Suc n) result =
     generateRoomId_loop draw (Suc i) n (result @ charAt chars (draw i))"

definition generateRoomId :: "(nat \<Rightarrow> nat) \<Rightarrow> string" where
  "generateRoomId draw = generateRoomId_loop draw 0 8 []"

text \<open>
  The \<open>pre('save')\<close> hook: a document without a room code gets the one that a single
  call of \<open>generateRoomId\<close> returns.
\<close>

definition pre_save :: "(nat \<Rightarrow> nat) \<Rightarrow> room \<Rightarrow> room" where
  "pre_save draw r = (if roomId r = [] then r\<lparr>roomId := generateRoomId draw\<rparr> else r)"

definition default_permissions :: permissions where
  "default_permissions =
     \<lparr>canMute = True, canUnmute = True, canShareScreen = True, canChat = True,
      canRecord = False, canKick = False\<rparr>"

text \<open>The sub-document that \<open>participants.push\<close> creates, with the schema defaults.\<close>

definition new_participant :: "time \<Rightarrow> user_id \<Rightarrow> role \<Rightarrow> participant" where
  "new_participant now userId r0 =
     \<lparr>user = userId, role = r0, joinedAt = now, leftAt = None, isActive = True,
      permissions = default_permissions,
      stats = \<lparr>totalTime = 0, lastSeen = now\<rparr>\<rparr>"

definition reactivate :: "time \<Rightarrow> participant \<Rightarrow> participant" where
  "reactivate now p =
     p\<lparr>isActive := True, leftAt := None, stats := (stats p)\<lparr>lastSeen := now\<rparr>\<rparr>"

text \<open>\<open>addParticipant(userId, role)\<close>; \<open>save()\<close> is the returned room.\<close>

definition addParticipant :: "time \<Rightarrow> user_id \<Rightarrow> role \<Rightarrow> room \<Rightarrow> room" where
  "addParticipant now userId r0 r =
     (case find (\<lambda>p. user p = userId) (participants r) of
        Some existingParticipant \<Rightarrow>
          r\<lparr>participants :=
               update_first (\<lambda>p. user p = userId) (reactivate now) (participants r),
            lastActivity := now\<rparr>
      | None \<Rightarrow>
          r\<lparr>participants := participants r @ [new_participant now userId r0],
            lastActivity := now\<rparr>)"

definition deactivate :: "time \<Rightarrow> participant \<Rightarrow> participant" where
  "deactivate now p = p\<lparr>isActive := False, leftAt := Some now\<rparr>"

text \<open>\<open>removeParticipant(userId)\<close>.\<close>

definition removeParticipant :: "time \<Rightarrow> user_id \<Rightarrow> room \<Rightarrow> room" where
  "removeParticipant now userId r =
     (case find (\<lambda>p. user p = userId) (participants r) of
        Some participant \<Rightarrow>
          r\<lparr>participants :=
               update_first (\<lambda>p. user p = userId) (deactivate now) (participants r),
            lastActivity := now\<rparr>
      | None \<Rightarrow> r)"

definition isParticipant :: "room \<Rightarrow> user_id \<Rightarrow> bool" where
  "isParticipant r userId = list_ex (\<lambda>p. user p = userId \<and> isActive p) (participants r)"

text \<open>
  \<open>participant.permissions[permission] || false\<close>, as the truth value that the callers
  test. For the six flags of the schema it is the stored flag. For any other name it is
  whether the permissions object has a member of that name at all, which it can only
  inherit (\<open>toString\<close>, \<open>constructor\<close>, ...): that is decided by the JavaScript
  runtime and by mongoose, not by the source, and is the parameter \<open>inherited\<close>.
\<close>

definition permission_flag :: "(string \<Rightarrow> bool) \<Rightarrow> permissions \<Rightarrow> string \<Rightarrow> bool" where
  "permission_flag inherited ps permission =
     (if permission = ''canMute'' then canMute ps
      else if permission = ''canUnmute'' then canUnmute ps
      else if permission = ''canShareScreen'' then canShareScreen ps
      else if permission = ''canChat'' then canChat ps
      else if permission = ''canRecord'' then canRecord ps
      else if permission = ''canKick'' then canKick ps
      else inherited permission)"

definition hasPermission :: "(string \<Rightarrow> bool) \<Rightarrow> room \<Rightarrow> user_id \<Rightarrow> string \<Rightarrow> bool" where
  "hasPermission inherited r userId permission =
     (case find (\<lambda>p. user p = userId \<and> isActive p) (participants r) of
        None \<Rightarrow> False
      | Some participant \<Rightarrow>
          if role participant = Owner then True
          else permission_flag inherited (permissions participant) permission)"

section \<open>Strings in the validators (validator.js, mongoose)\<close>

text \<open>
  The code units that \<open>String.prototype.trim\<close> and the \<open>trim\<close> of validator.js
  remove at both ends: the white space and the line terminators of
  JavaScript, among them the no-break space \<open>U+00A0\<close>.
\<close>

definition is_space :: "int \<Rightarrow> bool" where
  "is_space c =
     (c \<in> set [9, 10, 11, 12, 13, 32, 160, 5760,
                8192, 8193, 8194, 8195, 8196, 8197, 8198, 8199, 8200, 8201, 8202,
                8232, 8233, 8239, 8287, 12288, 65279])"

definition trim :: "jstring \<Rightarrow> jstring" where
  "trim s = rev (dropWhile is_space (rev (dropWhile is_space s)))"

text \<open>
  The length that \<open>isLength\<close> of validator.js compares with its bounds:
  \<open>str.length\<close> less the number of variation selectors (\<open>U+FE0E\<close>, \<open>U+FE0F\<close>) and
  less the number of surrogate pairs (a high surrogate followed by a low one, matched
  from the left), so that a pair counts once and a selector not at all. The validators
  \<open>minlength\<close> and \<open>maxlength\<close> of a mongoose schema compare \<open>length\<close> itself.
\<close>

fun surrogate_pairs :: "jstring \<Rightarrow> nat" where
  "surrogate_pairs (a # b # cs) =
     (if 55296 \<le> a \<and> a \<le> 56319 \<and> 56320 \<le> b \<and> b \<le> 57343
      then Suc (surrogate_pairs cs)
      else surrogate_pairs (b # cs))"
| "surrogate_pairs cs = 0"

definition isLength_len :: "jstring \<Rightarrow> nat" where
  "isLength_len s =
     length s - length (filter (\<lambda>c. c = 65039 \<or> c = 65038) s) - surrogate_pairs s"

section \<open>Validation chains (express-validator)\<close>

text \<open>One rule of a validation chain: the path is reported when the test fails.\<close>

definition rule :: "string \<Rightarrow> bool \<Rightarrow> string list" where
  "rule path ok = (if ok then [] else [path])"

text \<open>A rule after \<open>.optional()\<close> is skipped for an absent field.\<close>

definition optional :: "string \<Rightarrow> 'a option \<Rightarrow> ('a \<Rightarrow> bool) \<Rightarrow> string list" where
  "optional path v test = (case v of None \<Rightarrow> [] | Some x \<Rightarrow> rule path (test x))"

section \<open>Join and leave (server/routes/rooms.js)\<close>

text \<open>
  The handler of \<open>POST /:roomId/join\<close>, from the room that \<open>Room.findOne\<close> returned
  (\<open>None\<close>: no such room). \<open>!password\<close> holds for an absent and for an empty password.

  The handler calls \<open>room.comparePassword(password)\<close>. The parameter \<open>comparePassword\<close>
  is the method of that name of the Room model: \<open>None\<close> when the model has none, and
  then the call throws a \<open>TypeError\<close>, which \<open>asyncHandler\<close> passes to the error
  handler, whose answer is status 500 with the code \<open>INTERNAL_SERVER_ERROR\<close>. The model
  of the repository is \<open>Room_comparePassword\<close> below.

  The result is the error with which the handler returns before it touches the room,
  or the room as the handler leaves it: the token and the cache, which follow, do not
  change the room. The user is the one that \<open>authenticateToken\<close> has put in the
  request.
\<close>

definition join ::
  "(room \<Rightarrow> jstring \<Rightarrow> bool) option \<Rightarrow> time \<Rightarrow> room option \<Rightarrow> user_id \<Rightarrow> jstring option
     \<Rightarrow> error + room"
where
  "join comparePassword now found userId pw =
     (case found of
        None \<Rightarrow> Inl NOT_FOUND
      | Some r \<Rightarrow>
          if \<not> room_isActive r then Inl ROOM_INACTIVE
          else if int (currentParticipantsCount r) \<ge> maxParticipants r then Inl ROOM_FULL
          else
            (case (if rtype r = PasswordProtected
                   then (case pw of
                           None \<Rightarrow> Some PASSWORD_REQUIRED
                         | Some p \<Rightarrow>
                             if p = [] then Some PASSWORD_REQUIRED
                             else (case comparePassword of
                                     None \<Rightarrow> Some INTERNAL_SERVER_ERROR
                                   | Some compare \<Rightarrow>
                                       if \<not> compare r p then Some INVALID_PASSWORD
                                       else None))
                   else None) of
               Some e \<Rightarrow> Inl e
             | None \<Rightarrow>
                 if \<not> isParticipant r userId
                 then Inr (addParticipant now userId Participant r)
                 else Inr r))"

text \<open>
  server/models/Room.js defines the methods \<open>generateRoomId\<close>, \<open>addParticipant\<close>,
  \<open>removeParticipant\<close>, \<open>isParticipant\<close> and \<open>hasPermission\<close>, and no method
  \<open>comparePassword\<close>.
\<close>

definition Room_comparePassword :: "(room \<Rightarrow> jstring \<Rightarrow> bool) option" where
  "Room_comparePassword = None"

text \<open>
  The route runs the chain \<open>joinRoomValidation\<close> before the handler: a password that
  is present must have a length of at least 1. A request is the chain, then the handler.
\<close>

definition joinRoomValidation :: "jstring option \<Rightarrow> string list" where
  "joinRoomValidation pw = optional ''password'' pw (\<lambda>p. 1 \<le> isLength_len p)"

definition join_request ::
  "(room \<Rightarrow> jstring \<Rightarrow> bool) option \<Rightarrow> time \<Rightarrow> room option \<Rightarrow> user_id \<Rightarrow> jstring option
     \<Rightarrow> error + room"
where
  "join_request comparePassword now found userId pw =
     (if joinRoomValidation pw \<noteq> [] then Inl (VALIDATION_ERROR (joinRoomValidation pw))
      else join comparePassword now found userId pw)"

text \<open>The handler of \<open>POST /:roomId/leave\<close>.\<close>

definition leave :: "time \<Rightarrow> room option \<Rightarrow> user_id \<Rightarrow> error + room" where
  "leave now found userId =
     (case found of
        None \<Rightarrow> Inl NOT_FOUND
      | Some r \<Rightarrow> Inr (removeParticipant now userId r))"

section \<open>Creating and updating rooms (server/routes/rooms.js)\<close>

text \<open>
  The body of \<open>POST /api/rooms\<close>. An absent optional field is \<open>None\<close>; an absent name
  is validated like the empty string. \<open>maxParticipants\<close> is an integer here: \<open>isInt\<close>
  rejects every other value. A flag of \<open>settings\<close> is absent or a boolean.
\<close>

record settings_req =
  s_videoEnabled :: "bool option"
  s_audioEnabled :: "bool option"
  s_screenSharingEnabled :: "bool option"
  s_chatEnabled :: "bool option"
  s_recordingEnabled :: "bool option"

record create_req =
  req_name :: jstring
  req_description :: "jstring option"
  req_type :: "string option"
  req_password :: "jstring option"
  req_maxParticipants :: "int option"
  req_category :: "string option"
  req_tags :: "jstring list option"
  req_settings :: "settings_req option"

definition room_types :: "string list" where
  "room_types = [''public'', ''private'', ''password-protected'']"

definition categories :: "string list" where
  "categories = [''business'', ''education'', ''social'', ''gaming'', ''other'']"

text \<open>\<open>createRoomValidation\<close>: the paths that fail, in the order of the rules.\<close>

definition createRoomValidation :: "create_req \<Rightarrow> string list" where
  "createRoomValidation req =
     rule ''name'' (3 \<le> isLength_len (trim (req_name req))
                    \<and> isLength_len (trim (req_name req)) \<le> 100)
     @ optional ''description'' (req_description req) (\<lambda>d. isLength_len (trim d) \<le> 500)
     @ optional ''type'' (req_type req) (\<lambda>t. t \<in> set room_types)
     @ optional ''password'' (req_password req) (\<lambda>p. 4 \<le> isLength_len p)
     @ optional ''maxParticipants'' (req_maxParticipants req) (\<lambda>n. 1 \<le> n \<and> n \<le> 1000)
     @ optional ''category'' (req_category req) (\<lambda>c. c \<in> set categories)
     @ optional ''tags'' (req_tags req) (\<lambda>ts. length ts \<le> 10)"

text \<open>
  \<open>livekitService.validateRoomName\<close> (server/services/livekit.js): the expression
  \<open>/^[a-zA-Z0-9_-]+$/\<close> and at most 64 code units.
\<close>

definition name_char :: "int \<Rightarrow> bool" where
  "name_char c =
     (c \<in> set (str ''abcdefghijklmnopqrstuvwxyzABCDEFGHIJKLMNOPQRSTUVWXYZ0123456789_-''))"

definition validateRoomName :: "jstring \<Rightarrow> bool" where
  "validateRoomName roomName =
     (if roomName = [] then False
      else list_all name_char roomName \<and> length roomName \<le> 64)"

definition parse_type :: "string \<Rightarrow> room_type" where
  "parse_type t =
     (if t = ''password-protected'' then PasswordProtected
      else if t = ''private'' then Private
      else Public)"

text \<open>The \<open>settings\<close> object the create handler builds.\<close>

definition create_settings :: "settings_req \<Rightarrow> settings" where
  "create_settings s =
     \<lparr>videoEnabled = (s_videoEnabled s \<noteq> Some False),
      audioEnabled = (s_audioEnabled s \<noteq> Some False),
      screenSharingEnabled = (s_screenSharingEnabled s \<noteq> Some False),
      chatEnabled = (s_chatEnabled s \<noteq> Some False),
      recordingEnabled = (s_recordingEnabled s = Some True)\<rparr>"

definition empty_settings_req :: settings_req where
  "empty_settings_req =
     \<lparr>s_videoEnabled = None, s_audioEnabled = None, s_screenSharingEnabled = None,
      s_chatEnabled = None, s_recordingEnabled = None\<rparr>"

text \<open>
  The validators of the schema, which \<open>save()\<close> runs on the document before any
  \<open>pre('save')\<close> hook of the schema: the paths that fail. \<open>roomId\<close> is
  \<open>required\<close>, which an absent and an empty string fail; name, description, password
  and tags have bounds on their length, \<open>maxParticipants\<close> on its value, and \<open>category\<close>
  is an enumeration. (A tag that fails is reported under \<open>tags\<close>.)
\<close>

definition schema_errors :: "room \<Rightarrow> string list" where
  "schema_errors r =
     rule ''name'' (3 \<le> length (name r) \<and> length (name r) \<le> 100)
     @ optional ''description'' (description r) (\<lambda>d. length d \<le> 500)
     @ rule ''roomId'' (roomId r \<noteq> [])
     @ optional ''password'' (password r) (\<lambda>p. 4 \<le> length p)
     @ rule ''maxParticipants'' (1 \<le> maxParticipants r \<and> maxParticipants r \<le> 1000)
     @ rule ''tags'' (list_all (\<lambda>t. length t \<le> 20) (tags r))
     @ rule ''category'' (category r \<in> set categories)"

text \<open>The store: the collection of room documents, in insertion order.\<close>

type_synonym store = "room list"

text \<open>\<open>Room.findOne({ name })\<close>.\<close>

definition findOne_name :: "store \<Rightarrow> jstring \<Rightarrow> room option" where
  "findOne_name st n = find (\<lambda>x. name x = n) st"

text \<open>\<open>Room.findOne({ roomId })\<close>.\<close>

definition findOne_roomId :: "store \<Rightarrow> string \<Rightarrow> room option" where
  "findOne_roomId st c = find (\<lambda>x. roomId x = c) st"

text \<open>
  The first \<open>save()\<close> of a new document: the validators of the schema, whose failure is
  a \<open>ValidationError\<close> that the error handler answers with the code
  \<open>VALIDATION_ERROR\<close>; then the \<open>pre('save')\<close> hook; then the insertion, which the
  unique index on \<open>roomId\<close> refuses with a duplicate-key error.
\<close>

definition save_new :: "(nat \<Rightarrow> nat) \<Rightarrow> store \<Rightarrow> room \<Rightarrow> error + (room \<times> store)" where
  "save_new draw st r =
     (if schema_errors r \<noteq> [] then Inl (VALIDATION_ERROR (schema_errors r))
      else
        let r1 = pre_save draw r
        in if findOne_roomId st (roomId r1) \<noteq> None then Inl DUPLICATE_FIELD
           else Inr (r1, st @ [r1]))"

text \<open>A later \<open>save()\<close> of a stored document replaces it in the collection.\<close>

definition save_existing :: "store \<Rightarrow> room \<Rightarrow> store" where
  "save_existing st r = map (\<lambda>x. if roomId x = roomId r then r else x) st"

text \<open>
  The document \<open>new Room({...})\<close> of the create handler, from the sanitized body, with
  the defaults of the handler and of the schema. The handler passes no \<open>roomId\<close>. The
  password is kept only for the type \<open>password-protected\<close>.
\<close>

definition new_room :: "time \<Rightarrow> user_id \<Rightarrow> create_req \<Rightarrow> room" where
  "new_room now uid req =
     (let type0 = (case req_type req of None \<Rightarrow> ''public'' | Some t \<Rightarrow> t);
          maxParticipants0 = (case req_maxParticipants req of None \<Rightarrow> 50 | Some n \<Rightarrow> n);
          category0 = (case req_category req of None \<Rightarrow> ''other'' | Some c \<Rightarrow> c);
          tags0 = (case req_tags req of None \<Rightarrow> [] | Some ts \<Rightarrow> ts);
          settings0 = (case req_settings req of None \<Rightarrow> empty_settings_req | Some s \<Rightarrow> s)
      in \<lparr>name = trim (req_name req),
          description = map_option trim (req_description req),
          roomId = [],
          owner = uid,
          rtype = parse_type type0,
          password = (if type0 = ''password-protected'' then req_password req else None),
          maxParticipants = maxParticipants0,
          room_isActive = True,
          room_settings = create_settings settings0,
          participants = [],
          lastActivity = now,
          tags = map trim tags0,
          category = category0\<rparr>)"

text \<open>
  \<open>POST /api/rooms\<close>: the validation chain, then the handler. The result is the error
  sent, or the room created and the store holding it (the handler has the shape of a
  request that can succeed; \<open>createRoom_refused\<close> below shows that none does).
\<close>

definition createRoom ::
  "(nat \<Rightarrow> nat) \<Rightarrow> time \<Rightarrow> store \<Rightarrow> user_id \<Rightarrow> create_req \<Rightarrow> error + (room \<times> store)"
where
  "createRoom draw now st uid req =
     (if createRoomValidation req \<noteq> [] then Inl (VALIDATION_ERROR (createRoomValidation req))
      else if \<not> validateRoomName (trim (req_name req)) then Inl INVALID_ROOM_NAME
      else if findOne_name st (trim (req_name req)) \<noteq> None then Inl ROOM_NAME_EXISTS
      else
        (case save_new draw st (new_room now uid req) of
           Inl e \<Rightarrow> Inl e
         | Inr (r, st1) \<Rightarrow>
             let r2 = addParticipant now uid Owner r
             in Inr (r2, save_existing st1 r2)))"

text \<open>The store after a create request: unchanged when the request was refused.\<close>

definition store_after :: "store \<Rightarrow> error + (room \<times> store) \<Rightarrow> store" where
  "store_after st res = (case res of Inl e \<Rightarrow> st | Inr (r, st') \<Rightarrow> st')"






section \<open>Sequences of requests on one room\<close>

text \<open>
  A request that is answered with an error leaves the stored room as it was; a
  successful one stores the room it returns.
\<close>

datatype op = Join time user_id "jstring option" | Leave time user_id

fun apply_op :: "(room \<Rightarrow> jstring \<Rightarrow> bool) option \<Rightarrow> room \<Rightarrow> op \<Rightarrow> room" where
  "apply_op cmp r (Join now u pw) =
     (case join_request cmp now (Some r) u pw of Inl e \<Rightarrow> r | Inr r' \<Rightarrow> r')"
| "apply_op cmp r (Leave now u) =
     (case leave now (Some r) u of Inl e \<Rightarrow> r | Inr r' \<Rightarrow> r')"

definition run :: "(room \<Rightarrow> jstring \<Rightarrow> bool) option \<Rightarrow> op list \<Rightarrow> room \<Rightarrow> room" where
  "run cmp ops r = foldl (apply_op cmp) r ops"




text \<open>The number of active records that a user has in the roster.\<close>

definition active_records :: "room \<Rightarrow> user_id \<Rightarrow> nat" where
  "active_records r u = length (filter (\<lambda>p. user p = u \<and> isActive p) (participants r))"

text \<open>
  The owner has a participant record, and every record of the owner has the role
  \<open>owner\<close>.
\<close>

definition owner_recorded :: "room \<Rightarrow> bool" where
  "owner_recorded r =
     (find (\<lambda>p. user p = owner r) (participants r) \<noteq> None
      \<and> list_all (\<lambda>p. user p = owner r \<longrightarrow> role p = Owner) (participants r))"

section \<open>Concrete inputs\<close>

text \<open>
  The members that every JavaScript object inherits from \<open>Object.prototype\<close>, as an
  instance of the parameter \<open>inherited\<close> for evaluation at concrete inputs.
\<close>

definition object_members :: "string \<Rightarrow> bool" where
  "object_members n =
     (n \<in> set [''constructor'', ''hasOwnProperty'', ''isPrototypeOf'',
                ''propertyIsEnumerable'', ''toLocaleString'', ''toString'', ''valueOf''])"

text \<open>The random source whose every draw is \<open>0\<close>: it generates the code \<open>AAAAAAAA\<close>.\<close>

definition draw_zero :: "nat \<Rightarrow> nat" where
  "draw_zero i = 0"

text \<open>
  A random source whose first eight draws are \<open>0\<close> and whose next eight are \<open>1\<close>: a
  second call of \<open>generateRoomId\<close> would give \<open>BBBBBBBB\<close>.
\<close>

definition draw_late :: "nat \<Rightarrow> nat" where
  "draw_late i = i div 8"

text \<open>
  A public room with one seat, which its owner, user \<open>1\<close>, holds since \<open>5\<close>, and a
  request for a room of that name and size.
\<close>

definition standup_room :: room where
  "standup_room =
     \<lparr>name = str ''standup'', description = None, roomId = ''AAAAAAAA'', owner = 1,
      rtype = Public, password = None, maxParticipants = 1, room_isActive = True,
      room_settings =
        \<lparr>videoEnabled = True, audioEnabled = True, screenSharingEnabled = True,
         chatEnabled = True, recordingEnabled = False\<rparr>,
      participants = [new_participant 5 1 Owner],
      lastActivity = 5, tags = [], category = ''other''\<rparr>"

definition standup_req :: create_req where
  "standup_req =
     \<lparr>req_name = str ''standup'', req_description = None, req_type = None,
      req_password = None, req_maxParticipants = Some 1, req_category = None,
      req_tags = None, req_settings = None\<rparr>"

text \<open>
  A public room with three seats: the owner \<open>1\<close> is active since \<open>5\<close>, user \<open>2\<close>
  joined at \<open>6\<close> and left at \<open>7\<close>.
\<close>

definition team_room :: room where
  "team_room =
     \<lparr>name = str ''team'', description = None, roomId = ''TEAM0001'', owner = 1,
      rtype = Public, password = None, maxParticipants = 3, room_isActive = True,
      room_settings =
        \<lparr>videoEnabled = True, audioEnabled = True, screenSharingEnabled = True,
         chatEnabled = True, recordingEnabled = False\<rparr>,
      participants = [new_participant 5 1 Owner, deactivate 7 (new_participant 6 2 Participant)],
      lastActivity = 7, tags = [], category = ''other''\<rparr>"

text \<open>A password-protected room with two seats and the password \<open>abcd\<close>.\<close>

definition vault_room :: room where
  "vault_room =
     \<lparr>name = str ''vault'', description = None, roomId = ''VAULT001'', owner = 1,
      rtype = PasswordProtected, password = Some (str ''abcd''), maxParticipants = 2,
      room_isActive = True,
      room_settings =
        \<lparr>videoEnabled = True, audioEnabled = True, screenSharingEnabled = True,
         chatEnabled = True, recordingEnabled = False\<rparr>,
      participants = [new_participant 5 1 Owner],
      lastActivity = 5, tags = [], category = ''other''\<rparr>"

text \<open>A request named like the room with one seat, with no seat at all.\<close>

definition standup_again_req :: create_req where
  "standup_again_req = standup_req\<lparr>req_maxParticipants := Some 0\<rparr>"


text \<open>A request for another public room.\<close>

definition retro_req :: create_req where
  "retro_req = standup_req\<lparr>req_name := str ''retro'', req_maxParticipants := None\<rparr>"



section \<open>The roster under join and leave\<close>

lemma length_update_first: "length (update_first P f xs) = length xs"
  by (induction xs) auto

lemma map_update_first_frame:
  "(\<And>x. g (f x) = g x) \<Longrightarrow> map g (update_first P f xs) = map g xs"
  by (induction xs) auto

lemma active_update_first_deactivate:
  "length (filter isActive (update_first P (deactivate now) xs)) \<le> length (filter isActive xs)"
  by (induction xs) (auto simp: deactivate_def)

lemma active_update_first_reactivate:
  "length (filter isActive (update_first P (reactivate now) xs))
     \<le> Suc (length (filter isActive xs))"
  by (induction xs) (auto simp: reactivate_def)

lemma addParticipant_count:
  "currentParticipantsCount (addParticipant now u ro r) \<le> Suc (currentParticipantsCount r)"
  by (auto simp: addParticipant_def currentParticipantsCount_def new_participant_def
      active_update_first_reactivate split: option.splits)

lemma addParticipant_frame:
  "maxParticipants (addParticipant now u ro r) = maxParticipants r"
  "room_isActive (addParticipant now u ro r) = room_isActive r"
  "rtype (addParticipant now u ro r) = rtype r"
  "password (addParticipant now u ro r) = password r"
  "owner (addParticipant now u ro r) = owner r"
  "roomId (addParticipant now u ro r) = roomId r"
  by (simp_all add: addParticipant_def split: option.splits)

lemma removeParticipant_count:
  "currentParticipantsCount (removeParticipant now u r) \<le> currentParticipantsCount r"
  by (auto simp: removeParticipant_def currentParticipantsCount_def
      active_update_first_deactivate split: option.splits)

lemma removeParticipant_frame:
  "maxParticipants (removeParticipant now u r) = maxParticipants r"
  "room_isActive (removeParticipant now u r) = room_isActive r"
  "rtype (removeParticipant now u r) = rtype r"
  "password (removeParticipant now u r) = password r"
  "owner (removeParticipant now u r) = owner r"
  "roomId (removeParticipant now u r) = roomId r"
  by (simp_all add: removeParticipant_def split: option.splits)

lemma join_Inr:
  assumes "join cmp now (Some r) u pw = Inr r'"
  shows "room_isActive r"
    and "int (currentParticipantsCount r) < maxParticipants r"
    and "r' = (if isParticipant r u then r else addParticipant now u Participant r)"
  using assms
  by (auto simp: join_def split: if_splits option.splits)

lemma join_request_Inr:
  "join_request cmp now (Some r) u pw = Inr r' \<Longrightarrow> join cmp now (Some r) u pw = Inr r'"
  by (simp add: join_request_def split: if_splits)

lemma join_full:
  "room_isActive r \<Longrightarrow> maxParticipants r \<le> int (currentParticipantsCount r)
     \<Longrightarrow> join cmp now (Some r) u pw = Inl ROOM_FULL"
  by (simp add: join_def)

lemma join_over_capacity_fails:
  "maxParticipants r \<le> int (currentParticipantsCount r)
     \<Longrightarrow> \<exists>e. join cmp now (Some r) u pw = Inl e"
  by (simp add: join_def)

lemma apply_op_frame_all:
  "maxParticipants (apply_op cmp r x) = maxParticipants r
   \<and> room_isActive (apply_op cmp r x) = room_isActive r
   \<and> rtype (apply_op cmp r x) = rtype r
   \<and> password (apply_op cmp r x) = password r
   \<and> owner (apply_op cmp r x) = owner r
   \<and> roomId (apply_op cmp r x) = roomId r"
proof (cases x)
  case (Join now u pw)
  show ?thesis
  proof (cases "join_request cmp now (Some r) u pw")
    case (Inl e)
    with Join show ?thesis by simp
  next
    case (Inr r')
    from join_Inr(3)[OF join_request_Inr[OF Inr]]
    have "maxParticipants r' = maxParticipants r \<and> room_isActive r' = room_isActive r
      \<and> rtype r' = rtype r \<and> password r' = password r \<and> owner r' = owner r
      \<and> roomId r' = roomId r"
      by (simp add: addParticipant_frame)
    with Join Inr show ?thesis by simp
  qed
next
  case (Leave now u)
  then show ?thesis by (simp add: leave_def removeParticipant_frame)
qed

lemma run_frame_all:
  "maxParticipants (run cmp ops r) = maxParticipants r
   \<and> room_isActive (run cmp ops r) = room_isActive r
   \<and> rtype (run cmp ops r) = rtype r
   \<and> password (run cmp ops r) = password r
   \<and> owner (run cmp ops r) = owner r
   \<and> roomId (run cmp ops r) = roomId r"
  unfolding run_def
  by (induction ops arbitrary: r) (simp_all add: apply_op_frame_all)

lemma run_frame:
  "maxParticipants (run cmp ops r) = maxParticipants r"
  "room_isActive (run cmp ops r) = room_isActive r"
  "rtype (run cmp ops r) = rtype r"
  "password (run cmp ops r) = password r"
  "owner (run cmp ops r) = owner r"
  "roomId (run cmp ops r) = roomId r"
  using run_frame_all[of cmp ops r] by simp_all

lemma apply_op_capacity:
  assumes "int (currentParticipantsCount r) \<le> maxParticipants r"
  shows "int (currentParticipantsCount (apply_op cmp r x)) \<le> maxParticipants (apply_op cmp r x)"
proof (cases x)
  case (Join now u pw)
  show ?thesis
  proof (cases "join_request cmp now (Some r) u pw")
    case (Inl e)
    with Join assms show ?thesis by simp
  next
    case (Inr r')
    from join_Inr[OF join_request_Inr[OF Inr]] addParticipant_count[of now u Participant r] assms
    have "int (currentParticipantsCount r') \<le> maxParticipants r'"
      by (auto simp: addParticipant_frame)
    with Join Inr show ?thesis by simp
  qed
next
  case (Leave now u)
  with assms removeParticipant_count[of now u r] show ?thesis
    by (simp add: leave_def removeParticipant_frame)
qed

lemma run_capacity:
  "int (currentParticipantsCount r) \<le> maxParticipants r
   \<Longrightarrow> int (currentParticipantsCount (run cmp ops r)) \<le> maxParticipants (run cmp ops r)"
  unfolding run_def
proof (induction ops arbitrary: r)
  case Nil
  then show ?case by simp
next
  case (Cons x xs)
  from apply_op_capacity[OF Cons.prems, of cmp x] Cons.IH[of "apply_op cmp r x"]
  show ?case by simp
qed

text \<open>
  C1. Capacity. From a room whose active participants do not exceed \<open>maxParticipants\<close>
  (the document that the create handler builds, with the owner added, has one active
  participant and at least one seat), after every sequence of join and leave requests handled one after the other the
  number of active participants is at most \<open>maxParticipants\<close>. In the room so reached, a
  join at or above capacity is refused, with \<open>ROOM_FULL\<close> on a room whose active flag is
  set (the create handler sets the flag and no request clears it), and a join that
  succeeds adds at most one active participant.
\<close>

theorem capacity_invariant:
  assumes "int (currentParticipantsCount r) \<le> maxParticipants r"
  shows "int (currentParticipantsCount (run cmp ops r)) \<le> maxParticipants (run cmp ops r)
     \<and> (maxParticipants (run cmp ops r) \<le> int (currentParticipantsCount (run cmp ops r))
          \<longrightarrow> (\<exists>e. join cmp now (Some (run cmp ops r)) u pw = Inl e)
              \<and> (room_isActive r
                   \<longrightarrow> join cmp now (Some (run cmp ops r)) u pw = Inl ROOM_FULL))
     \<and> (\<forall>r'. join cmp now (Some (run cmp ops r)) u pw = Inr r'
          \<longrightarrow> currentParticipantsCount r' \<le> currentParticipantsCount (run cmp ops r) + 1
              \<and> int (currentParticipantsCount r') \<le> maxParticipants r')"
proof -
  let ?s = "run cmp ops r"
  have cap: "int (currentParticipantsCount ?s) \<le> maxParticipants ?s"
    by (rule run_capacity[OF assms])
  have full: "maxParticipants ?s \<le> int (currentParticipantsCount ?s)
          \<longrightarrow> (\<exists>e. join cmp now (Some ?s) u pw = Inl e)
              \<and> (room_isActive r \<longrightarrow> join cmp now (Some ?s) u pw = Inl ROOM_FULL)"
    by (simp add: join_full join_over_capacity_fails run_frame)
  have step: "\<forall>r'. join cmp now (Some ?s) u pw = Inr r'
          \<longrightarrow> currentParticipantsCount r' \<le> currentParticipantsCount ?s + 1
              \<and> int (currentParticipantsCount r') \<le> maxParticipants r'"
  proof (intro allI impI)
    fix r' assume j: "join cmp now (Some ?s) u pw = Inr r'"
    from join_Inr[OF j] addParticipant_count[of now u Participant ?s]
    show "currentParticipantsCount r' \<le> currentParticipantsCount ?s + 1
              \<and> int (currentParticipantsCount r') \<le> maxParticipants r'"
      by (auto simp: addParticipant_frame)
  qed
  from cap full step show ?thesis by blast
qed

text \<open>
  The room with one seat: its owner holds the seat, a second user is refused with
  \<open>ROOM_FULL\<close>; after the owner left and the second user joined, a third is refused.
\<close>

theorem capacity_invariant_witness:
  "int (currentParticipantsCount standup_room) \<le> maxParticipants standup_room
   \<and> join Room_comparePassword 6 (Some standup_room) 2 None = Inl ROOM_FULL
   \<and> currentParticipantsCount
        (run Room_comparePassword [Join 6 2 None, Leave 7 1, Join 8 2 None] standup_room) = 1
   \<and> join Room_comparePassword 9
        (Some (run Room_comparePassword [Join 6 2 None, Leave 7 1, Join 8 2 None] standup_room))
        3 None = Inl ROOM_FULL"
proof -
  let ?ops = "[Join 6 2 None, Leave 7 1, Join 8 2 None]"
  have h: "int (currentParticipantsCount standup_room) \<le> maxParticipants standup_room"
    by code_simp
  have act: "room_isActive standup_room"
    by code_simp
  have c0: "maxParticipants (run Room_comparePassword [] standup_room)
              \<le> int (currentParticipantsCount (run Room_comparePassword [] standup_room))"
    by code_simp
  have c1: "currentParticipantsCount (run Room_comparePassword ?ops standup_room) = 1"
    by code_simp
  have m1: "maxParticipants (run Room_comparePassword ?ops standup_room) = 1"
    by code_simp
  have r0: "run Room_comparePassword [] standup_room = standup_room"
    by (simp add: run_def)
  from capacity_invariant[OF h, of Room_comparePassword "[]" 6 2 None] c0 act r0
  have j0: "join Room_comparePassword 6 (Some standup_room) 2 None = Inl ROOM_FULL"
    by simp
  from capacity_invariant[OF h, of Room_comparePassword ?ops 9 3 None] c1 m1 act
  have j1: "join Room_comparePassword 9
        (Some (run Room_comparePassword ?ops standup_room)) 3 None = Inl ROOM_FULL"
    by simp
  from h j0 c1 j1 show ?thesis by blast
qed

text \<open>
  C2. Order of the checks of a join, evaluated in the repository as it is. The
  password-protected room with two seats is active and has a free seat, so the handler
  passes the first two checks; a request without a password is answered with
  \<open>PASSWORD_REQUIRED\<close>. With a password, the wrong one or the right one, the handler
  reaches \<open>room.comparePassword\<close>, which the Room model does not define: the answer is
  \<open>INTERNAL_SERVER_ERROR\<close>, never \<open>INVALID_PASSWORD\<close>, and the user is not added.
\<close>

theorem join_password_check_throws:
  "room_isActive vault_room
   \<and> int (currentParticipantsCount vault_room) < maxParticipants vault_room
   \<and> rtype vault_room = PasswordProtected
   \<and> password vault_room = Some (str ''abcd'')
   \<and> join Room_comparePassword 6 (Some vault_room) 2 None = Inl PASSWORD_REQUIRED
   \<and> join Room_comparePassword 6 (Some vault_room) 2 (Some (str ''wrong''))
        = Inl INTERNAL_SERVER_ERROR
   \<and> join Room_comparePassword 6 (Some vault_room) 2 (Some (str ''abcd''))
        = Inl INTERNAL_SERVER_ERROR
   \<and> apply_op Room_comparePassword vault_room (Join 6 2 (Some (str ''abcd''))) = vault_room"
  by code_simp

section \<open>One active record per user\<close>

lemma filter_update_first_untouched:
  "(\<And>x. P x \<Longrightarrow> \<not> Q x \<and> \<not> Q (f x)) \<Longrightarrow> filter Q (update_first P f xs) = filter Q xs"
  by (induction xs) auto

lemma filter_update_first_le:
  "(\<And>x. Q (f x) \<Longrightarrow> Q x) \<Longrightarrow>
     length (filter Q (update_first P f xs)) \<le> length (filter Q xs)"
  by (induction xs) auto

lemma filter_update_first_Suc:
  "length (filter Q (update_first P f xs)) \<le> Suc (length (filter Q xs))"
  by (induction xs) auto

lemma find_update_first:
  "find P xs = Some p \<Longrightarrow> P (f p) \<Longrightarrow> find P (update_first P f xs) = Some (f p)"
  by (induction xs) (auto split: if_splits)

lemma list_ex_filter: "list_ex P xs = (0 < length (filter P xs))"
  by (induction xs) auto

lemma isParticipant_active_records: "isParticipant r u = (0 < active_records r u)"
  by (simp add: isParticipant_def active_records_def list_ex_filter)

lemma removeParticipant_active_records:
  "active_records (removeParticipant now u r) v \<le> active_records r v"
  by (auto simp: removeParticipant_def active_records_def deactivate_def
      intro!: filter_update_first_le split: option.splits)

lemma addParticipant_active_records_other:
  "v \<noteq> u \<Longrightarrow> active_records (addParticipant now u ro r) v = active_records r v"
proof -
  assume ne: "v \<noteq> u"
  have "filter (\<lambda>p. user p = v \<and> isActive p)
          (update_first (\<lambda>p. user p = u) (reactivate now) (participants r))
        = filter (\<lambda>p. user p = v \<and> isActive p) (participants r)"
    by (rule filter_update_first_untouched) (use ne in \<open>simp add: reactivate_def\<close>)
  with ne show ?thesis
    by (simp add: addParticipant_def active_records_def new_participant_def
        split: option.splits)
qed

lemma addParticipant_active_records_self:
  "\<not> isParticipant r u \<Longrightarrow> active_records (addParticipant now u ro r) u \<le> 1"
proof -
  assume "\<not> isParticipant r u"
  then have z: "filter (\<lambda>p. user p = u \<and> isActive p) (participants r) = []"
    by (simp add: isParticipant_active_records active_records_def)
  show ?thesis
  proof (cases "find (\<lambda>p. user p = u) (participants r)")
    case None
    with z show ?thesis
      by (simp add: addParticipant_def active_records_def new_participant_def)
  next
    case (Some p)
    from filter_update_first_Suc[of "\<lambda>p. user p = u \<and> isActive p" "\<lambda>p. user p = u"
        "reactivate now" "participants r"] z Some
    show ?thesis
      by (simp add: addParticipant_def active_records_def)
  qed
qed

lemma apply_op_active_records:
  assumes "active_records r v \<le> 1"
  shows "active_records (apply_op cmp r x) v \<le> 1"
proof (cases x)
  case (Join now u pw)
  show ?thesis
  proof (cases "join_request cmp now (Some r) u pw")
    case (Inl e)
    with Join assms show ?thesis by simp
  next
    case (Inr r')
    note j = join_Inr(3)[OF join_request_Inr[OF Inr]]
    have "active_records r' v \<le> 1"
    proof (cases "isParticipant r u")
      case True
      with j assms show ?thesis by simp
    next
      case False
      with j have r': "r' = addParticipant now u Participant r" by simp
      show ?thesis
      proof (cases "v = u")
        case True
        with r' addParticipant_active_records_self[OF False] show ?thesis by simp
      next
        case False
        with r' assms show ?thesis by (simp add: addParticipant_active_records_other)
      qed
    qed
    with Join Inr show ?thesis by simp
  qed
next
  case (Leave now u)
  from removeParticipant_active_records[of now u r v] assms
  have "active_records (removeParticipant now u r) v \<le> 1" by simp
  with Leave show ?thesis by (simp add: leave_def)
qed

lemma run_active_records:
  "active_records r v \<le> 1 \<Longrightarrow> active_records (run cmp ops r) v \<le> 1"
  unfolding run_def
proof (induction ops arbitrary: r)
  case Nil
  then show ?case by simp
next
  case (Cons x xs)
  from Cons.IH[OF apply_op_active_records[OF Cons.prems]] show ?case by simp
qed

lemma addParticipant_existing:
  assumes "find (\<lambda>q. user q = u) (participants r) = Some p"
  shows "participants (addParticipant now u ro r)
           = update_first (\<lambda>q. user q = u) (reactivate now) (participants r)"
    and "length (participants (addParticipant now u ro r)) = length (participants r)"
    and "find (\<lambda>q. user q = u) (participants (addParticipant now u ro r))
           = Some (reactivate now p)"
proof -
  show a: "participants (addParticipant now u ro r)
           = update_first (\<lambda>q. user q = u) (reactivate now) (participants r)"
    using assms by (simp add: addParticipant_def)
  then show "length (participants (addParticipant now u ro r)) = length (participants r)"
    by (simp add: length_update_first)
  from assms have "user p = u"
    by (auto simp: find_Some_iff)
  then have "user (reactivate now p) = u"
    by (simp add: reactivate_def)
  with a find_update_first[OF assms, of "reactivate now"]
  show "find (\<lambda>q. user q = u) (participants (addParticipant now u ro r))
           = Some (reactivate now p)"
    by simp
qed

text \<open>
  C4 (as amended). For a user with at most one active record in the roster (the
  document that the create handler builds, with the owner added, has one record), after
  every sequence of join and leave requests
  the user still has at most one active record. A join that succeeds for a user who has
  a record appends nothing: when the user is not an active participant, the user's
  record is reactivated (\<open>isActive = true\<close>, \<open>leftAt = null\<close>, \<open>lastSeen\<close> set to the
  time of the join); when the user is an active participant, the handler does not call
  \<open>addParticipant\<close> and the room stays as it is.
\<close>

theorem rejoin_reactivates:
  assumes "active_records r v \<le> 1"
  shows "active_records (run cmp ops r) v \<le> 1
     \<and> (\<forall>p r'. find (\<lambda>q. user q = u) (participants r) = Some p
            \<and> join cmp now (Some r) u pw = Inr r'
          \<longrightarrow> length (participants r') = length (participants r)
              \<and> (isParticipant r u \<longrightarrow> r' = r)
              \<and> (\<not> isParticipant r u \<longrightarrow>
                    find (\<lambda>q. user q = u) (participants r')
                      = Some (p\<lparr>isActive := True, leftAt := None,
                                stats := (stats p)\<lparr>lastSeen := now\<rparr>\<rparr>)))"
proof -
  have inv: "active_records (run cmp ops r) v \<le> 1"
    by (rule run_active_records[OF assms])
  have re: "\<forall>p r'. find (\<lambda>q. user q = u) (participants r) = Some p
            \<and> join cmp now (Some r) u pw = Inr r'
          \<longrightarrow> length (participants r') = length (participants r)
              \<and> (isParticipant r u \<longrightarrow> r' = r)
              \<and> (\<not> isParticipant r u \<longrightarrow>
                    find (\<lambda>q. user q = u) (participants r')
                      = Some (p\<lparr>isActive := True, leftAt := None,
                                stats := (stats p)\<lparr>lastSeen := now\<rparr>\<rparr>))"
  proof (intro allI impI, elim conjE)
    fix p r'
    assume f: "find (\<lambda>q. user q = u) (participants r) = Some p"
      and j: "join cmp now (Some r) u pw = Inr r'"
    from join_Inr(3)[OF j] addParticipant_existing[OF f, of now Participant]
    show "length (participants r') = length (participants r)
              \<and> (isParticipant r u \<longrightarrow> r' = r)
              \<and> (\<not> isParticipant r u \<longrightarrow>
                    find (\<lambda>q. user q = u) (participants r')
                      = Some (p\<lparr>isActive := True, leftAt := None,
                                stats := (stats p)\<lparr>lastSeen := now\<rparr>\<rparr>))"
      by (simp add: reactivate_def)
  qed
  from inv re show ?thesis by blast
qed

text \<open>
  User \<open>2\<close> of the team room, who left at \<open>7\<close>, joins again at \<open>8\<close>: the record is
  reactivated in place.
\<close>

theorem rejoin_reactivates_witness:
  "active_records team_room 2 \<le> 1
   \<and> active_records
        (run Room_comparePassword [Join 8 2 None, Leave 9 2, Join 10 2 None] team_room) 2 \<le> 1
   \<and> join Room_comparePassword 8 (Some team_room) 2 None
        = Inr (addParticipant 8 2 Participant team_room)
   \<and> length (participants (addParticipant 8 2 Participant team_room)) = 2
   \<and> find (\<lambda>q. user q = 2) (participants (addParticipant 8 2 Participant team_room))
        = Some ((deactivate 7 (new_participant 6 2 Participant))
                  \<lparr>isActive := True, leftAt := None,
                   stats := (stats (deactivate 7 (new_participant 6 2 Participant)))
                              \<lparr>lastSeen := 8\<rparr>\<rparr>)"
proof -
  have h: "active_records team_room 2 \<le> 1"
    by code_simp
  have f: "find (\<lambda>q. user q = 2) (participants team_room)
             = Some (deactivate 7 (new_participant 6 2 Participant))"
    by (simp add: team_room_def new_participant_def deactivate_def)
  have j: "join Room_comparePassword 8 (Some team_room) 2 None
             = Inr (addParticipant 8 2 Participant team_room)"
    by (simp add: join_def team_room_def currentParticipantsCount_def isParticipant_def
        new_participant_def deactivate_def)
  have n: "\<not> isParticipant team_room 2"
    by code_simp
  have l: "length (participants team_room) = 2"
    by (simp add: team_room_def)
  from rejoin_reactivates[OF h, of Room_comparePassword
      "[Join 8 2 None, Leave 9 2, Join 10 2 None]" 2 8 None] f j n l h
  show ?thesis by simp
qed

text \<open>
  The owner of the team room is an active participant, last seen at \<open>5\<close>. A join of
  the owner at \<open>9\<close> succeeds and returns the room unchanged: \<open>lastSeen\<close> is not
  refreshed.
\<close>

theorem rejoin_active_counterexample:
  "user (participants team_room ! 0) = 1
   \<and> isActive (participants team_room ! 0)
   \<and> lastSeen (stats (participants team_room ! 0)) = 5
   \<and> join Room_comparePassword 9 (Some team_room) 1 None = Inr team_room"
  by (simp add: join_def team_room_def currentParticipantsCount_def isParticipant_def
        new_participant_def deactivate_def)

section \<open>The owner's permissions\<close>

lemma find_active_update_first:
  "(\<And>x. user (f x) = user x \<and> role (f x) = role x) \<Longrightarrow>
   list_all (\<lambda>p. user p = o_id \<longrightarrow> role p = Owner) xs \<Longrightarrow>
   list_all (\<lambda>p. user p = o_id \<longrightarrow> role p = Owner) (update_first P f xs)"
  by (induction xs) auto

lemma find_append_first:
  "find P (xs @ ys) = (case find P xs of None \<Rightarrow> find P ys | Some x \<Rightarrow> Some x)"
  by (induction xs) auto

lemma find_None_update_first:
  "(\<And>x. P (f x) = P x) \<Longrightarrow> (find P (update_first Q f xs) = None) = (find P xs = None)"
  by (induction xs) auto

lemma removeParticipant_owner_recorded:
  assumes "owner_recorded r"
  shows "owner_recorded (removeParticipant now u r)"
proof (cases "find (\<lambda>p. user p = u) (participants r)")
  case None
  with assms show ?thesis by (simp add: removeParticipant_def)
next
  case (Some p)
  have a: "(find (\<lambda>p. user p = owner r)
              (update_first (\<lambda>p. user p = u) (deactivate now) (participants r)) = None)
           = (find (\<lambda>p. user p = owner r) (participants r) = None)"
    by (rule find_None_update_first) (simp add: deactivate_def)
  have b: "list_all (\<lambda>p. user p = owner r \<longrightarrow> role p = Owner)
             (update_first (\<lambda>p. user p = u) (deactivate now) (participants r))"
    by (rule find_active_update_first) (use assms in \<open>simp_all add: deactivate_def owner_recorded_def\<close>)
  from a b assms Some show ?thesis
    by (simp add: removeParticipant_def owner_recorded_def)
qed

lemma addParticipant_owner_recorded:
  assumes "owner_recorded r"
  shows "owner_recorded (addParticipant now u Participant r)"
proof (cases "find (\<lambda>p. user p = u) (participants r)")
  case None
  with assms have "u \<noteq> owner r"
    by (auto simp: owner_recorded_def)
  moreover from None have "addParticipant now u Participant r
      = r\<lparr>participants := participants r @ [new_participant now u Participant],
          lastActivity := now\<rparr>"
    by (simp add: addParticipant_def)
  moreover have "find (\<lambda>p. user p = owner r) (participants r @ [new_participant now u Participant])
      = find (\<lambda>p. user p = owner r) (participants r)"
    using assms by (auto simp: owner_recorded_def find_append_first split: option.splits)
  ultimately show ?thesis
    using assms by (simp add: owner_recorded_def new_participant_def)
next
  case (Some p)
  have a: "(find (\<lambda>p. user p = owner r)
              (update_first (\<lambda>p. user p = u) (reactivate now) (participants r)) = None)
           = (find (\<lambda>p. user p = owner r) (participants r) = None)"
    by (rule find_None_update_first) (simp add: reactivate_def)
  have b: "list_all (\<lambda>p. user p = owner r \<longrightarrow> role p = Owner)
             (update_first (\<lambda>p. user p = u) (reactivate now) (participants r))"
    by (rule find_active_update_first) (use assms in \<open>simp_all add: reactivate_def owner_recorded_def\<close>)
  from a b assms Some show ?thesis
    by (simp add: addParticipant_def owner_recorded_def)
qed

lemma apply_op_owner_recorded:
  assumes "owner_recorded r"
  shows "owner_recorded (apply_op cmp r x)"
proof (cases x)
  case (Join now u pw)
  show ?thesis
  proof (cases "join_request cmp now (Some r) u pw")
    case (Inl e)
    with Join assms show ?thesis by simp
  next
    case (Inr r')
    from join_Inr(3)[OF join_request_Inr[OF Inr]] assms addParticipant_owner_recorded[OF assms, of now u]
    have "owner_recorded r'" by (simp split: if_splits)
    with Join Inr show ?thesis by simp
  qed
next
  case (Leave now u)
  with removeParticipant_owner_recorded[OF assms, of now u] show ?thesis
    by (simp add: leave_def)
qed

lemma run_owner_recorded: "owner_recorded r \<Longrightarrow> owner_recorded (run cmp ops r)"
  unfolding run_def
  by (induction ops arbitrary: r) (simp_all add: apply_op_owner_recorded)

lemma find_Some_list_all: "find P xs = Some p \<Longrightarrow> list_all Q xs \<Longrightarrow> Q p"
  by (induction xs) (auto split: if_splits)

lemma list_ex_find: "list_ex P xs = (find P xs \<noteq> None)"
  by (induction xs) auto

lemma owner_recorded_hasPermission:
  assumes "owner_recorded r"
  shows "hasPermission inh r (owner r) permission = isParticipant r (owner r)"
proof (cases "find (\<lambda>p. user p = owner r \<and> isActive p) (participants r)")
  case None
  then show ?thesis
    by (simp add: hasPermission_def isParticipant_def list_ex_find)
next
  case (Some p)
  from Some have "user p = owner r"
    by (auto simp: find_Some_iff)
  with find_Some_list_all[OF Some, of "\<lambda>p. user p = owner r \<longrightarrow> role p = Owner"] assms
  have "role p = Owner"
    by (simp add: owner_recorded_def)
  with Some show ?thesis
    by (simp add: hasPermission_def isParticipant_def list_ex_find)
qed

text \<open>
  C5 (as amended). In a room whose owner has a participant record and where every
  record of the owner carries the role \<open>owner\<close> (the create handler calls
  \<open>addParticipant\<close> for the owner with that role), after every sequence of join and leave requests
  \<open>hasPermission\<close> answers for the owner, for every permission name and whatever the
  stored flags are, exactly whether the owner is an active participant: \<open>true\<close> while
  the owner is in the room, \<open>false\<close> after the owner left.
\<close>

theorem owner_has_permission:
  assumes "find (\<lambda>p. user p = owner r) (participants r) \<noteq> None"
    and "list_all (\<lambda>p. user p = owner r \<longrightarrow> role p = Owner) (participants r)"
  shows "hasPermission inh (run cmp ops r) (owner r) permission
           = isParticipant (run cmp ops r) (owner r)"
proof -
  from assms have "owner_recorded r"
    by (simp add: owner_recorded_def)
  then have "owner_recorded (run cmp ops r)"
    by (rule run_owner_recorded)
  from owner_recorded_hasPermission[OF this, of inh permission] show ?thesis
    by (simp add: run_frame)
qed

text \<open>
  In the room with one seat, while user \<open>2\<close> waits outside, the owner leaves and joins
  again: the owner may kick, a permission whose stored flag is \<open>false\<close>.
\<close>

theorem owner_has_permission_witness:
  "find (\<lambda>p. user p = owner standup_room) (participants standup_room) \<noteq> None
   \<and> list_all (\<lambda>p. user p = owner standup_room \<longrightarrow> role p = Owner) (participants standup_room)
   \<and> hasPermission object_members (run Room_comparePassword [Join 6 2 None, Leave 7 1, Join 8 1 None] standup_room)
        1 ''canKick''"
proof -
  have a: "find (\<lambda>p. user p = owner standup_room) (participants standup_room) \<noteq> None"
    by (simp add: standup_room_def new_participant_def)
  have b: "list_all (\<lambda>p. user p = owner standup_room \<longrightarrow> role p = Owner)
             (participants standup_room)"
    by (simp add: standup_room_def new_participant_def)
  have c: "isParticipant
             (run Room_comparePassword [Join 6 2 None, Leave 7 1, Join 8 1 None] standup_room) 1"
    by code_simp
  have d: "owner standup_room = 1"
    by (simp add: standup_room_def)
  from owner_has_permission[OF a b, of object_members Room_comparePassword
      "[Join 6 2 None, Leave 7 1, Join 8 1 None]" "''canKick''"] a b c d
  show ?thesis by simp
qed

text \<open>
  The owner of the room with one seat leaves at \<open>6\<close>. The record keeps the role
  \<open>owner\<close> and the flag \<open>canChat\<close>, and \<open>hasPermission\<close> answers \<open>false\<close>.
\<close>

theorem owner_left_counterexample:
  "owner (run Room_comparePassword [Leave 6 1] standup_room) = 1
   \<and> role (participants (run Room_comparePassword [Leave 6 1] standup_room) ! 0) = Owner
   \<and> canChat (permissions (participants (run Room_comparePassword [Leave 6 1] standup_room) ! 0))
   \<and> \<not> hasPermission object_members (run Room_comparePassword [Leave 6 1] standup_room) 1 ''canChat''"
  by (simp add: run_def leave_def removeParticipant_def standup_room_def new_participant_def
      deactivate_def hasPermission_def default_permissions_def)

section \<open>Leaving twice\<close>



lemma removeParticipant_no_record:
  "find (\<lambda>p. user p = u) (participants r) = None \<Longrightarrow> removeParticipant now u r = r"
  by (simp add: removeParticipant_def)


lemma removeParticipant_only_flags:
  "map (\<lambda>p. p\<lparr>isActive := True, leftAt := None\<rparr>) (participants (removeParticipant now u r))
     = map (\<lambda>p. p\<lparr>isActive := True, leftAt := None\<rparr>) (participants r)"
proof (cases "find (\<lambda>p. user p = u) (participants r)")
  case None
  then show ?thesis by (simp add: removeParticipant_no_record)
next
  case (Some p)
  have "map (\<lambda>p. p\<lparr>isActive := True, leftAt := None\<rparr>)
          (update_first (\<lambda>p. user p = u) (deactivate now) (participants r))
        = map (\<lambda>p. p\<lparr>isActive := True, leftAt := None\<rparr>) (participants r)"
    by (rule map_update_first_frame) (simp add: deactivate_def)
  with Some show ?thesis by (simp add: removeParticipant_def)
qed

lemma removeParticipant_room_frame:
  "(removeParticipant now u r)\<lparr>participants := participants r, lastActivity := lastActivity r\<rparr> = r"
  by (simp add: removeParticipant_def split: option.splits)






section \<open>Roles across leave and rejoin\<close>

lemma apply_op_roles:
  "\<exists>zs. map (\<lambda>p. (user p, role p)) (participants (apply_op cmp r x))
          = map (\<lambda>p. (user p, role p)) (participants r) @ zs"
proof (cases x)
  case (Join now u pw)
  show ?thesis
  proof (cases "join_request cmp now (Some r) u pw")
    case (Inl e)
    with Join show ?thesis by simp
  next
    case (Inr r')
    have "map (\<lambda>p. (user p, role p))
            (update_first (\<lambda>p. user p = u) (reactivate now) (participants r))
          = map (\<lambda>p. (user p, role p)) (participants r)"
      by (rule map_update_first_frame) (simp add: reactivate_def)
    with join_Inr(3)[OF join_request_Inr[OF Inr]]
    have "\<exists>zs. map (\<lambda>p. (user p, role p)) (participants r')
          = map (\<lambda>p. (user p, role p)) (participants r) @ zs"
      by (simp add: addParticipant_def split: if_splits option.splits)
    with Join Inr show ?thesis by simp
  qed
next
  case (Leave now u)
  have "map (\<lambda>p. (user p, role p))
          (update_first (\<lambda>p. user p = u) (deactivate now) (participants r))
        = map (\<lambda>p. (user p, role p)) (participants r)"
    by (rule map_update_first_frame) (simp add: deactivate_def)
  with Leave show ?thesis
    by (simp add: leave_def removeParticipant_def split: option.splits)
qed

lemma run_roles:
  "\<exists>zs. map (\<lambda>p. (user p, role p)) (participants (run cmp ops r))
          = map (\<lambda>p. (user p, role p)) (participants r) @ zs"
  unfolding run_def
proof (induction ops arbitrary: r)
  case Nil
  then show ?case by simp
next
  case (Cons x xs)
  from apply_op_roles[of cmp r x] obtain zs where
    a: "map (\<lambda>p. (user p, role p)) (participants (apply_op cmp r x))
          = map (\<lambda>p. (user p, role p)) (participants r) @ zs"
    by blast
  from Cons.IH[of "apply_op cmp r x"] obtain ys where
    b: "map (\<lambda>p. (user p, role p)) (participants (foldl (apply_op cmp) (apply_op cmp r x) xs))
          = map (\<lambda>p. (user p, role p)) (participants (apply_op cmp r x)) @ ys"
    by blast
  from a b show ?case by simp
qed

lemma run_roles_take:
  "map (\<lambda>p. (user p, role p)) (take (length (participants r)) (participants (run cmp ops r)))
     = map (\<lambda>p. (user p, role p)) (participants r)"
proof -
  from run_roles[of cmp ops r] obtain zs where
    a: "map (\<lambda>p. (user p, role p)) (participants (run cmp ops r))
          = map (\<lambda>p. (user p, role p)) (participants r) @ zs"
    by blast
  have "map (\<lambda>p. (user p, role p)) (take (length (participants r)) (participants (run cmp ops r)))
      = take (length (participants r)) (map (\<lambda>p. (user p, role p)) (participants (run cmp ops r)))"
    by (simp add: take_map)
  with a show ?thesis by simp
qed

lemma left_not_participant:
  "distinct (map user xs) \<Longrightarrow>
     \<not> list_ex (\<lambda>p. user p = u \<and> isActive p) (update_first (\<lambda>p. user p = u) (deactivate t) xs)"
proof (induction xs)
  case Nil
  then show ?case by simp
next
  case (Cons x xs)
  show ?case
  proof (cases "user x = u")
    case True
    with Cons.prems have "\<forall>p\<in>set xs. user p \<noteq> u"
      by (metis distinct.simps(2) image_eqI list.simps(9) set_map)
    with True show ?thesis
      by (simp add: deactivate_def list_ex_iff)
  next
    case False
    with Cons show ?thesis by simp
  qed
qed

lemma rejoin_after_leave:
  assumes d: "distinct (map user (participants r))"
    and f: "find (\<lambda>q. user q = u) (participants r) = Some p"
    and j: "join cmp tb (Some (removeParticipant ta u r)) u pw = Inr r'"
  shows "find (\<lambda>q. user q = u) (participants r')
           = Some (p\<lparr>isActive := True, leftAt := None, stats := (stats p)\<lparr>lastSeen := tb\<rparr>\<rparr>)"
proof -
  let ?l = "removeParticipant ta u r"
  from f have up: "user p = u"
    by (auto simp: find_Some_iff)
  from f have pl: "participants ?l = update_first (\<lambda>q. user q = u) (deactivate ta) (participants r)"
    by (simp add: removeParticipant_def)
  from up have "user (deactivate ta p) = u"
    by (simp add: deactivate_def)
  with find_update_first[OF f, of "deactivate ta"] pl
  have fl: "find (\<lambda>q. user q = u) (participants ?l) = Some (deactivate ta p)"
    by simp
  from left_not_participant[OF d, of u ta] pl have "\<not> isParticipant ?l u"
    by (simp add: isParticipant_def)
  with join_Inr(3)[OF j] have "r' = addParticipant tb u Participant ?l"
    by simp
  with addParticipant_existing(3)[OF fl, of tb Participant]
  show ?thesis
    by (simp add: reactivate_def deactivate_def)
qed

lemma apply_op_distinct:
  assumes "distinct (map user (participants r))"
  shows "distinct (map user (participants (apply_op cmp r x)))"
proof (cases x)
  case (Join now u pw)
  show ?thesis
  proof (cases "join_request cmp now (Some r) u pw")
    case (Inl e)
    with Join assms show ?thesis by simp
  next
    case (Inr r')
    have "distinct (map user (participants (addParticipant now u Participant r)))"
    proof (cases "find (\<lambda>p. user p = u) (participants r)")
      case None
      then have "u \<notin> user ` set (participants r)"
        by (auto simp: find_None_iff)
      with None assms show ?thesis
        by (simp add: addParticipant_def new_participant_def)
    next
      case (Some p)
      have "map user (update_first (\<lambda>p. user p = u) (reactivate now) (participants r))
          = map user (participants r)"
        by (rule map_update_first_frame) (simp add: reactivate_def)
      with Some assms show ?thesis
        by (simp add: addParticipant_def)
    qed
    with join_Inr(3)[OF join_request_Inr[OF Inr]] assms have "distinct (map user (participants r'))"
      by (simp split: if_splits)
    with Join Inr show ?thesis by simp
  qed
next
  case (Leave now u)
  have "map user (update_first (\<lambda>p. user p = u) (deactivate now) (participants r))
          = map user (participants r)"
    by (rule map_update_first_frame) (simp add: deactivate_def)
  with Leave assms show ?thesis
    by (simp add: leave_def removeParticipant_def split: option.splits)
qed

lemma run_distinct:
  "distinct (map user (participants r)) \<Longrightarrow> distinct (map user (participants (run cmp ops r)))"
  unfolding run_def
  by (induction ops arbitrary: r) (simp_all add: apply_op_distinct)

text \<open>
  C6. A leave changes, in the records of the roster, only \<open>isActive\<close> and \<open>leftAt\<close>, and
  in the room besides the roster only the last activity. After every sequence of join
  and leave requests each record that was in the roster is at its place with its user
  and its role. In a roster with one record per user (\<open>run_distinct\<close>: join and leave
  keep it so), a join that succeeds after a leave turns the user's record into the
  record before the leave with \<open>isActive = true\<close>, \<open>leftAt = null\<close> and \<open>lastSeen\<close>
  refreshed: the role is the one the record had.
\<close>

theorem leave_rejoin_keeps_role:
  "map (\<lambda>p. p\<lparr>isActive := True, leftAt := None\<rparr>) (participants (removeParticipant now u r))
     = map (\<lambda>p. p\<lparr>isActive := True, leftAt := None\<rparr>) (participants r)
   \<and> (removeParticipant now u r)\<lparr>participants := participants r,
                                 lastActivity := lastActivity r\<rparr> = r
   \<and> map (\<lambda>p. (user p, role p))
        (take (length (participants r)) (participants (run cmp ops r)))
       = map (\<lambda>p. (user p, role p)) (participants r)
   \<and> (\<forall>p r'. distinct (map user (participants r))
          \<and> find (\<lambda>q. user q = u) (participants r) = Some p
          \<and> join cmp t2 (Some (removeParticipant now u r)) u pw = Inr r'
        \<longrightarrow> find (\<lambda>q. user q = u) (participants r')
              = Some (p\<lparr>isActive := True, leftAt := None,
                        stats := (stats p)\<lparr>lastSeen := t2\<rparr>\<rparr>))"
proof -
  have rejoin: "\<forall>p r'. distinct (map user (participants r))
          \<and> find (\<lambda>q. user q = u) (participants r) = Some p
          \<and> join cmp t2 (Some (removeParticipant now u r)) u pw = Inr r'
        \<longrightarrow> find (\<lambda>q. user q = u) (participants r')
              = Some (p\<lparr>isActive := True, leftAt := None,
                        stats := (stats p)\<lparr>lastSeen := t2\<rparr>\<rparr>)"
    using rejoin_after_leave by blast
  from removeParticipant_only_flags removeParticipant_room_frame run_roles_take rejoin
  show ?thesis by blast
qed

text \<open>
  The owner of the team room leaves at \<open>8\<close> and joins again at \<open>9\<close>: the record is the
  owner's first record, active, with no \<open>leftAt\<close>, and its role is still \<open>owner\<close>.
\<close>

theorem leave_rejoin_keeps_role_witness:
  "distinct (map user (participants team_room))
   \<and> find (\<lambda>q. user q = 1) (participants team_room) = Some (new_participant 5 1 Owner)
   \<and> join Room_comparePassword 9 (Some (removeParticipant 8 1 team_room)) 1 None
        = Inr (addParticipant 9 1 Participant (removeParticipant 8 1 team_room))
   \<and> find (\<lambda>q. user q = 1)
         (participants (addParticipant 9 1 Participant (removeParticipant 8 1 team_room)))
        = Some ((new_participant 5 1 Owner)
                  \<lparr>isActive := True, leftAt := None,
                   stats := (stats (new_participant 5 1 Owner))\<lparr>lastSeen := 9\<rparr>\<rparr>)
   \<and> role ((new_participant 5 1 Owner)
                  \<lparr>isActive := True, leftAt := None,
                   stats := (stats (new_participant 5 1 Owner))\<lparr>lastSeen := 9\<rparr>\<rparr>) = Owner"
proof -
  have d: "distinct (map user (participants team_room))"
    by (simp add: team_room_def new_participant_def deactivate_def)
  have f: "find (\<lambda>q. user q = 1) (participants team_room) = Some (new_participant 5 1 Owner)"
    by (simp add: team_room_def new_participant_def)
  have j: "join Room_comparePassword 9 (Some (removeParticipant 8 1 team_room)) 1 None
        = Inr (addParticipant 9 1 Participant (removeParticipant 8 1 team_room))"
    by (simp add: join_def removeParticipant_def team_room_def currentParticipantsCount_def
        isParticipant_def new_participant_def deactivate_def)
  have ro: "role ((new_participant 5 1 Owner)
                  \<lparr>isActive := True, leftAt := None,
                   stats := (stats (new_participant 5 1 Owner))\<lparr>lastSeen := 9\<rparr>\<rparr>) = Owner"
    by (simp add: new_participant_def)
  from leave_rejoin_keeps_role[of 8 1 team_room Room_comparePassword "[]" 9 None] d f j
  have "find (\<lambda>q. user q = 1)
         (participants (addParticipant 9 1 Participant (removeParticipant 8 1 team_room)))
        = Some ((new_participant 5 1 Owner)
                  \<lparr>isActive := True, leftAt := None,
                   stats := (stats (new_participant 5 1 Owner))\<lparr>lastSeen := 9\<rparr>\<rparr>)"
    by blast
  with d f j ro show ?thesis by blast
qed

section \<open>Room codes\<close>

lemma generateRoomId_loop_length:
  "(\<forall>i. k \<le> i \<and> i < k + n \<longrightarrow> draw i < length chars)
     \<Longrightarrow> length (generateRoomId_loop draw k n acc) = length acc + n"
proof (induction n arbitrary: k acc)
  case 0
  then show ?case by simp
next
  case (Suc n)
  from Suc.prems have "draw k < length chars" by simp
  moreover from Suc.prems have "\<forall>i. Suc k \<le> i \<and> i < Suc k + n \<longrightarrow> draw i < length chars"
    by simp
  ultimately show ?case
    using Suc.IH[of "Suc k" "acc @ charAt chars (draw k)"] by (simp add: charAt_def)
qed

lemma generateRoomId_loop_set:
  "set (generateRoomId_loop draw k n acc) \<subseteq> set acc \<union> set chars"
proof (induction n arbitrary: k acc)
  case 0
  then show ?case by simp
next
  case (Suc n)
  have "set (charAt chars (draw k)) \<subseteq> set chars"
    by (auto simp: charAt_def)
  with Suc.IH[of "Suc k" "acc @ charAt chars (draw k)"] show ?case
    by auto
qed

lemma length_chars: "length chars = 36"
  by (simp add: chars_def)

lemma distinct_chars: "distinct chars"
  by (simp add: chars_def)

lemma generateRoomId_length:
  "(\<forall>i<8. draw i < 36) \<Longrightarrow> length (generateRoomId draw) = 8"
  using generateRoomId_loop_length[of 0 8 draw "[]"]
  by (simp add: generateRoomId_def length_chars)

lemma generateRoomId_alphabet: "set (generateRoomId draw) \<subseteq> set chars"
  using generateRoomId_loop_set[of draw 0 8 "[]"]
  by (simp add: generateRoomId_def)

text \<open>
  C3 (as amended). \<open>generateRoomId\<close> draws exactly 8 characters from the 36 distinct
  symbols \<open>A\<close>--\<open>Z\<close>, \<open>0\<close>--\<open>9\<close>. Neither it nor the \<open>pre('save')\<close> hook that calls it
  takes the store: the hook gives a document without a room code the code of one call of
  \<open>generateRoomId\<close>, whatever the store holds, and leaves a document that has a code as
  it is. There is no second draw.
\<close>

theorem room_code_generation:
  "((\<forall>i<8. draw i < 36) \<longrightarrow> length (generateRoomId draw) = 8)
   \<and> set (generateRoomId draw) \<subseteq> set chars
   \<and> length chars = 36 \<and> distinct chars
   \<and> (roomId r = [] \<longrightarrow> pre_save draw r = r\<lparr>roomId := generateRoomId draw\<rparr>)
   \<and> (roomId r \<noteq> [] \<longrightarrow> pre_save draw r = r)"
  using generateRoomId_length[of draw] generateRoomId_alphabet[of draw] length_chars distinct_chars
  by (simp add: pre_save_def)

text \<open>
  With every draw \<open>0\<close> the code is \<open>AAAAAAAA\<close>; the hook gives it to the document that
  the create handler builds, and leaves the room with one seat as it is.
\<close>

theorem room_code_generation_witness:
  "length (generateRoomId draw_zero) = 8
   \<and> roomId (new_room 5 1 standup_req) = []
   \<and> pre_save draw_zero (new_room 5 1 standup_req)
        = (new_room 5 1 standup_req)\<lparr>roomId := generateRoomId draw_zero\<rparr>
   \<and> roomId standup_room \<noteq> []
   \<and> pre_save draw_zero standup_room = standup_room"
proof -
  have d: "\<forall>i<8. draw_zero i < 36"
    by (simp add: draw_zero_def)
  have e: "roomId (new_room 5 1 standup_req) = []"
    by (simp add: new_room_def Let_def)
  have n: "roomId standup_room \<noteq> []"
    by (simp add: standup_room_def)
  from room_code_generation[of draw_zero "new_room 5 1 standup_req"] d e
  have 1: "length (generateRoomId draw_zero) = 8
    \<and> pre_save draw_zero (new_room 5 1 standup_req)
        = (new_room 5 1 standup_req)\<lparr>roomId := generateRoomId draw_zero\<rparr>"
    by blast
  from room_code_generation[of draw_zero standup_room] n
  have 2: "pre_save draw_zero standup_room = standup_room"
    by blast
  from d e n 1 2 show ?thesis by blast
qed

text \<open>
  The store holds a room with the code \<open>AAAAAAAA\<close>. The random source draws that code
  first and would draw \<open>BBBBBBBB\<close> next: \<open>generateRoomId\<close> returns the code that is in
  the store.
\<close>

theorem room_code_collision_counterexample:
  "roomId standup_room = ''AAAAAAAA''
   \<and> generateRoomId draw_late = ''AAAAAAAA''
   \<and> findOne_roomId [standup_room] (generateRoomId draw_late) = Some standup_room"
  by code_simp

section \<open>Create requests\<close>

lemma new_room_fields:
  "roomId (new_room now uid req) = []"
  "participants (new_room now uid req) = []"
  "room_isActive (new_room now uid req)"
  "owner (new_room now uid req) = uid"
  "name (new_room now uid req) = trim (req_name req)"
  "maxParticipants (new_room now uid req)
     = (case req_maxParticipants req of None \<Rightarrow> 50 | Some n \<Rightarrow> n)"
  "password (new_room now uid req)
     = (if req_type req = Some ''password-protected'' then req_password req else None)"
  "rtype (new_room now uid req)
     = parse_type (case req_type req of None \<Rightarrow> ''public'' | Some t \<Rightarrow> t)"
  by (simp_all add: new_room_def Let_def split: option.splits)

lemma schema_errors_new_room: "''roomId'' \<in> set (schema_errors (new_room now uid req))"
  by (simp add: schema_errors_def rule_def new_room_fields)

lemma save_new_room:
  "save_new draw st (new_room now uid req)
     = Inl (VALIDATION_ERROR (schema_errors (new_room now uid req)))"
proof -
  from schema_errors_new_room[of now uid req]
  have "schema_errors (new_room now uid req) \<noteq> []"
    by auto
  then show ?thesis by (simp add: save_new_def)
qed

lemma createRoom_cases:
  "createRoom draw now st uid req =
     (if createRoomValidation req \<noteq> [] then Inl (VALIDATION_ERROR (createRoomValidation req))
      else if \<not> validateRoomName (trim (req_name req)) then Inl INVALID_ROOM_NAME
      else if findOne_name st (trim (req_name req)) \<noteq> None then Inl ROOM_NAME_EXISTS
      else Inl (VALIDATION_ERROR (schema_errors (new_room now uid req))))"
  by (simp add: createRoom_def save_new_room)

lemma createRoom_refused:
  "\<exists>e. createRoom draw now st uid req = Inl e"
  "store_after st (createRoom draw now st uid req) = st"
  by (simp_all add: createRoom_cases store_after_def)


text \<open>
  The room that the create handler aims at: the document it builds, with the owner added
  as \<open>room.addParticipant(req.user._id, 'owner')\<close> adds it. It has one record, of its
  owner and active, its flag is set, and it has a seat for each active participant.
\<close>

lemma owner_added_roster:
  assumes "r = addParticipant now uid Owner (new_room now uid req)"
  shows "participants r = [new_participant now uid Owner]"
    and "owner r = uid"
    and "room_isActive r"
    and "createRoomValidation req = [] \<Longrightarrow> int (currentParticipantsCount r) \<le> maxParticipants r"
    and "owner_recorded r"
    and "distinct (map user (participants r))"
    and "active_records r v \<le> 1"
proof -
  from assms show p: "participants r = [new_participant now uid Owner]"
    by (simp add: addParticipant_def new_room_fields)
  from assms show o: "owner r = uid"
    by (simp add: addParticipant_frame new_room_fields)
  from assms show "room_isActive r"
    by (simp add: addParticipant_frame new_room_fields)
  show "int (currentParticipantsCount r) \<le> maxParticipants r" if "createRoomValidation req = []"
  proof -
    from that have "1 \<le> (case req_maxParticipants req of None \<Rightarrow> 50 | Some n \<Rightarrow> n)"
      by (auto simp: createRoomValidation_def rule_def optional_def
          split: if_splits option.splits)
    with assms p show ?thesis
      by (simp add: addParticipant_frame new_room_fields currentParticipantsCount_def
          new_participant_def)
  qed
  from p o show "owner_recorded r"
    by (simp add: owner_recorded_def new_participant_def)
  from p show "distinct (map user (participants r))"
    by simp
  from p show "active_records r v \<le> 1"
    by (simp add: active_records_def)
qed





section \<open>Stored passwords\<close>







section \<open>Names of rooms\<close>

lemma createRoom_name_taken:
  assumes "findOne_name st (trim (req_name req)) \<noteq> None"
  shows "createRoomValidation req = [] \<Longrightarrow> validateRoomName (trim (req_name req))
           \<Longrightarrow> createRoom draw now st uid req = Inl ROOM_NAME_EXISTS"
  using assms by (simp add: createRoom_cases)

text \<open>
  C10 (as amended). A create request whose trimmed name is the name of a room of the
  store fails and leaves the store unchanged; the error is \<open>ROOM_NAME_EXISTS\<close> when the
  request passes the validation chain and the name-format check, which both come before
  the lookup of the name.
\<close>

theorem create_name_exists:
  "findOne_name st (trim (req_name req)) \<noteq> None \<longrightarrow>
     (\<exists>e. createRoom draw now st uid req = Inl e)
     \<and> store_after st (createRoom draw now st uid req) = st
     \<and> (createRoomValidation req = [] \<and> validateRoomName (trim (req_name req))
          \<longrightarrow> createRoom draw now st uid req = Inl ROOM_NAME_EXISTS)"
  using createRoom_name_taken[of st req draw now uid]
    createRoom_refused(1)[of draw now st uid req] createRoom_refused(2)[of st draw now uid req]
  by blast

text \<open>
  A request for a room named \<open>standup\<close>, when the store holds the room of that name, is
  refused with \<open>ROOM_NAME_EXISTS\<close>.
\<close>

theorem create_name_exists_witness:
  "findOne_name [standup_room] (trim (req_name standup_req)) \<noteq> None
   \<and> createRoomValidation standup_req = []
   \<and> validateRoomName (trim (req_name standup_req))
   \<and> createRoom draw_late 9 [standup_room] 2 standup_req = Inl ROOM_NAME_EXISTS
   \<and> store_after [standup_room] (createRoom draw_late 9 [standup_room] 2 standup_req)
        = [standup_room]"
proof -
  have f: "findOne_name [standup_room] (trim (req_name standup_req)) \<noteq> None"
    by code_simp
  have v: "createRoomValidation standup_req = []"
    by code_simp
  have n: "validateRoomName (trim (req_name standup_req))"
    by code_simp
  from create_name_exists[of "[standup_room]" standup_req draw_late 9 2] f v n
  show ?thesis by blast
qed

text \<open>
  A request with the name of a stored room and with \<open>maxParticipants = 0\<close> is answered
  with the validation error of the chain, not with \<open>ROOM_NAME_EXISTS\<close>.
\<close>

theorem create_name_exists_counterexample:
  "findOne_name [standup_room] (trim (req_name standup_again_req)) = Some standup_room
   \<and> createRoom draw_late 9 [standup_room] 2 standup_again_req
        = Inl (VALIDATION_ERROR [''maxParticipants''])"
  by code_simp

end
